theory Spec2Isabelle
  imports Complex_Main "HOL-Library.Log_Nat"
begin

section \<open>JavaScript numbers\<close>

text \<open>
  A JavaScript \<^verbatim>\<open>number\<close> is an IEEE-754 binary64 value (a double): a finite value, one
  of the two infinities, or NaN. A finite value is kept as the rational it denotes. The two
  signed zeros are one value \<open>Fin 0\<close>, which behaves like \<open>+0\<close> when it is a divisor; the
  sign of a zero is the one thing of binary64 arithmetic that is not modelled.
\<close>

datatype number = Fin rat | PInf | NInf | NaN

text \<open>
  Rounding to nearest, ties to even. The finite doubles are the rationals \<open>m * 2 powi e\<close>
  with \<open>\<bar>m\<bar> < 2 ^ 53\<close>, \<open>- 1074 \<le> e\<close> and magnitude below \<open>2 powi 1024\<close>. For \<open>x \<noteq> 0\<close>
  the spacing of the doubles around \<open>x\<close> is \<open>2 powi e\<close> with \<open>e = \<lfloor>log\<^sub>2 \<bar>x\<bar>\<rfloor> - 52\<close>, and not
  less than \<open>2 powi (- 1074)\<close>, the spacing of the subnormal numbers; \<open>x\<close> is rounded to a
  multiple of that spacing, and a result of magnitude \<open>2 powi 1024\<close> is an overflow.
\<close>

text \<open>\<open>\<lfloor>log\<^sub>2 x\<rfloor>\<close> for \<open>0 < x\<close>, from the number of binary digits of an integer.\<close>

definition ilog2 :: "rat \<Rightarrow> int" where
  "ilog2 x = (if 1 \<le> x then bitlen \<lfloor>x\<rfloor> - 1 else - bitlen (\<lceil>1 / x\<rceil> - 1))"

text \<open>The nearest integer; of two nearest integers the even one.\<close>

definition round_even :: "rat \<Rightarrow> int" where
  "round_even x =
     (let f = \<lfloor>x\<rfloor>; d = x - of_int f
      in if d < 1 / 2 then f else if 1 / 2 < d then f + 1 else if even f then f else f + 1)"

definition round_double :: "rat \<Rightarrow> number" where
  "round_double x =
     (if x = 0 then Fin 0
      else let e = max (- 1074) (ilog2 \<bar>x\<bar> - 52);
               y = of_int (round_even (x / 2 powi e)) * 2 powi e
           in if 2 powi 1024 \<le> \<bar>y\<bar> then (if 0 < x then PInf else NInf) else Fin y)"

text \<open>
  The operations: the exact result, rounded. The special cases follow IEEE-754: \<open>0 / 0\<close>,
  \<open>\<infinity> - \<infinity>\<close>, \<open>0 * \<infinity>\<close> and \<open>\<infinity> / \<infinity>\<close> are NaN, a finite value other than zero divided
  by zero is an infinity, and NaN absorbs every operation. A product with the factor 1 is the
  other factor, as it is for every double; this is written out because \<open>Fin\<close> takes every
  rational, not only the doubles.
\<close>

instantiation number :: "{plus, times, inverse}"
begin

fun plus_number :: "number \<Rightarrow> number \<Rightarrow> number" where
  "plus_number (Fin a) (Fin b) = round_double (a + b)"
| "plus_number (Fin a) PInf = PInf"
| "plus_number (Fin a) NInf = NInf"
| "plus_number PInf (Fin b) = PInf"
| "plus_number PInf PInf = PInf"
| "plus_number PInf NInf = NaN"
| "plus_number NInf (Fin b) = NInf"
| "plus_number NInf PInf = NaN"
| "plus_number NInf NInf = NInf"
| "plus_number NaN y = NaN"
| "plus_number x NaN = NaN"

fun times_number :: "number \<Rightarrow> number \<Rightarrow> number" where
  "times_number (Fin a) (Fin b) =
     (if a = 1 then Fin b else if b = 1 then Fin a else round_double (a * b))"
| "times_number (Fin a) PInf = (if a = 0 then NaN else if 0 < a then PInf else NInf)"
| "times_number (Fin a) NInf = (if a = 0 then NaN else if 0 < a then NInf else PInf)"
| "times_number PInf (Fin b) = (if b = 0 then NaN else if 0 < b then PInf else NInf)"
| "times_number NInf (Fin b) = (if b = 0 then NaN else if 0 < b then NInf else PInf)"
| "times_number PInf PInf = PInf"
| "times_number PInf NInf = NInf"
| "times_number NInf PInf = NInf"
| "times_number NInf NInf = PInf"
| "times_number NaN y = NaN"
| "times_number x NaN = NaN"

fun divide_number :: "number \<Rightarrow> number \<Rightarrow> number" where
  "divide_number (Fin a) (Fin b) =
     (if b = 0 then (if a = 0 then NaN else if 0 < a then PInf else NInf)
      else round_double (a / b))"
| "divide_number (Fin a) PInf = Fin 0"
| "divide_number (Fin a) NInf = Fin 0"
| "divide_number PInf (Fin b) = (if 0 \<le> b then PInf else NInf)"
| "divide_number NInf (Fin b) = (if 0 \<le> b then NInf else PInf)"
| "divide_number PInf PInf = NaN"
| "divide_number PInf NInf = NaN"
| "divide_number NInf PInf = NaN"
| "divide_number NInf NInf = NaN"
| "divide_number NaN y = NaN"
| "divide_number x NaN = NaN"

text \<open>The class of \<open>/\<close> also has the reciprocal, which the program does not use.\<close>

fun inverse_number :: "number \<Rightarrow> number" where
  "inverse_number (Fin a) = (if a = 0 then PInf else round_double (1 / a))"
| "inverse_number PInf = Fin 0"
| "inverse_number NInf = Fin 0"
| "inverse_number NaN = NaN"

instance ..

end

text \<open>\<^verbatim>\<open>x > 0\<close>: false for NaN.\<close>

fun greater_zero :: "number \<Rightarrow> bool" where
  "greater_zero (Fin a) = (0 < a)"
| "greater_zero PInf = True"
| "greater_zero NInf = False"
| "greater_zero NaN = False"

text \<open>ToBoolean of a number: \<open>0\<close> and NaN are falsy.\<close>

fun truthy :: "number \<Rightarrow> bool" where
  "truthy (Fin a) = (a \<noteq> 0)"
| "truthy PInf = True"
| "truthy NInf = True"
| "truthy NaN = False"

text \<open>\<^verbatim>\<open>Math.max(0, x)\<close>: NaN if \<open>x\<close> is NaN.\<close>

fun Math_max0 :: "number \<Rightarrow> number" where
  "Math_max0 (Fin a) = Fin (max 0 a)"
| "Math_max0 PInf = PInf"
| "Math_max0 NInf = Fin 0"
| "Math_max0 NaN = NaN"

section \<open>JavaScript values and objects\<close>

text \<open>
  The values a chart data point holds at run time: the interface \<^verbatim>\<open>ChartData\<close> declares
  \<^verbatim>\<open>number | string\<close>, the price feed also delivers \<^verbatim>\<open>null\<close>, and reading a property an
  object does not have gives \<^verbatim>\<open>undefined\<close>. An object is the list of its own properties
  in insertion order, which is the order of \<^verbatim>\<open>Object.keys\<close> for names that are not
  array indices. Properties inherited from \<^verbatim>\<open>Object.prototype\<close> are not modelled.
\<close>

datatype jsval = JUndefined | JNull | JNum number | JStr string

type_synonym ChartData = "(string \<times> jsval) list"

definition Object_keys :: "ChartData \<Rightarrow> string list" where
  "Object_keys obj = map fst obj"

text \<open>\<^verbatim>\<open>obj[key]\<close> as an expression.\<close>

definition get :: "ChartData \<Rightarrow> string \<Rightarrow> jsval" where
  "get obj key = (case map_of obj key of None \<Rightarrow> JUndefined | Some v \<Rightarrow> v)"

text \<open>\<^verbatim>\<open>obj[key] = v\<close>: an existing property keeps its place, a new one goes last.\<close>

fun put :: "ChartData \<Rightarrow> string \<Rightarrow> jsval \<Rightarrow> ChartData" where
  "put [] key v = [(key, v)]"
| "put ((k, w) # obj) key v = (if k = key then (k, v) # obj else (k, w) # put obj key v)"

text \<open>
  \<^verbatim>\<open>Number(v)\<close>, which is also the conversion \<^verbatim>\<open>*\<close> applies to an operand. The
  conversion of a string (ECMAScript's StringToNumber) is the parameter \<open>sn\<close>: the
  program does not define it.
\<close>

fun Number :: "(string \<Rightarrow> number) \<Rightarrow> jsval \<Rightarrow> number" where
  "Number sn JUndefined = NaN"
| "Number sn JNull = Fin 0"
| "Number sn (JNum n) = n"
| "Number sn (JStr s) = sn s"

text \<open>The test \<^verbatim>\<open>v !== null && v !== undefined\<close>.\<close>

definition is_valid :: "jsval \<Rightarrow> bool" where
  "is_valid v = (v \<noteq> JNull \<and> v \<noteq> JUndefined)"

section \<open>Portfolio\<close>

text \<open>
  \<^verbatim>\<open>src/types/portfolio.ts\<close>. \<^verbatim>\<open>App.tsx\<close> declares the same two interfaces without the
  optional \<^verbatim>\<open>currentPrice\<close> and without \<^verbatim>\<open>lastUpdated\<close>; both components read the one
  stored portfolio, so one pair of records serves both.
\<close>

record PortfolioHolding =
  symbol :: string
  shares :: number
  currentPrice :: "number option"

record Portfolio =
  holdings :: "PortfolioHolding list"
  lastUpdated :: string

section \<open>normalizeData (App.tsx)\<close>

datatype error = TypeError

text \<open>
  The inner loop of the base-value scan: the first point whose value at \<open>key\<close> is
  neither null nor undefined gives the base; \<open>None\<close> when the loop ends without
  assigning.
\<close>

fun first_valid :: "(string \<Rightarrow> number) \<Rightarrow> ChartData list \<Rightarrow> string \<Rightarrow> number option" where
  "first_valid sn [] key = None"
| "first_valid sn (point # rest) key =
     (if is_valid (get point key) then Some (Number sn (get point key))
      else first_valid sn rest key)"

text \<open>The \<^verbatim>\<open>forEach\<close> over the keys of the first point, filling \<^verbatim>\<open>baseValues\<close>.\<close>

fun scan_keys ::
  "(string \<Rightarrow> number) \<Rightarrow> ChartData list \<Rightarrow> string list \<Rightarrow> (string \<rightharpoonup> number) \<Rightarrow> (string \<rightharpoonup> number)"
where
  "scan_keys sn data [] bv = bv"
| "scan_keys sn data (key # ks) bv =
     scan_keys sn data ks
       (if key \<noteq> ''date''
        then (case first_valid sn data key of None \<Rightarrow> bv | Some b \<Rightarrow> bv(key \<mapsto> b))
        else bv)"

definition baseValues :: "(string \<Rightarrow> number) \<Rightarrow> ChartData \<Rightarrow> ChartData list \<Rightarrow> (string \<rightharpoonup> number)" where
  "baseValues sn first data = scan_keys sn data (Object_keys first) Map.empty"

text \<open>\<^verbatim>\<open>baseValues[key]\<close> as a divisor: a missing entry is \<^verbatim>\<open>undefined\<close>, which converts to NaN.\<close>

definition base_of :: "(string \<rightharpoonup> number) \<Rightarrow> string \<Rightarrow> number" where
  "base_of bv key = (case bv key of None \<Rightarrow> NaN | Some b \<Rightarrow> b)"

text \<open>The \<^verbatim>\<open>forEach\<close> over the keys of one point, filling \<^verbatim>\<open>normalizedPoint\<close>.\<close>

fun normalized_values ::
  "(string \<Rightarrow> number) \<Rightarrow> (string \<rightharpoonup> number) \<Rightarrow> ChartData \<Rightarrow> string list \<Rightarrow> ChartData \<Rightarrow> ChartData"
where
  "normalized_values sn bv point [] np = np"
| "normalized_values sn bv point (key # ks) np =
     normalized_values sn bv point ks
       (if key \<noteq> ''date'' \<and> is_valid (get point key)
        then put np key (JNum (Number sn (get point key) / base_of bv key * Fin 100))
        else np)"

definition not_cash :: "PortfolioHolding list \<Rightarrow> PortfolioHolding list" where
  "not_cash hs = filter (\<lambda>h. symbol h \<noteq> ''CASH'') hs"

definition totalInvestment :: "Portfolio \<Rightarrow> number" where
  "totalInvestment portfolio =
     foldl (\<lambda>sum h. sum + shares h) (Fin 0) (not_cash (holdings portfolio))"

definition weightedTotal ::
  "(string \<Rightarrow> number) \<Rightarrow> number \<Rightarrow> ChartData \<Rightarrow> Portfolio \<Rightarrow> number"
where
  "weightedTotal sn totalInv normalizedPoint portfolio =
     foldl (\<lambda>sum holding.
              if get normalizedPoint (symbol holding) \<noteq> JUndefined
              then sum + Number sn (get normalizedPoint (symbol holding))
                           * (shares holding / totalInv)
              else sum)
       (Fin 0) (not_cash (holdings portfolio))"

text \<open>The body of \<^verbatim>\<open>data.map\<close>.\<close>

definition normalize_point ::
  "(string \<Rightarrow> number) \<Rightarrow> (string \<rightharpoonup> number) \<Rightarrow> Portfolio \<Rightarrow> ChartData \<Rightarrow> ChartData"
where
  "normalize_point sn bv portfolio point =
     (let normalizedPoint =
            normalized_values sn bv point (Object_keys point) [(''date'', get point ''date'')]
      in put normalizedPoint ''TOTAL''
           (JNum (weightedTotal sn (totalInvestment portfolio) normalizedPoint portfolio)))"

text \<open>
  \<^verbatim>\<open>Object.keys(data[0])\<close> throws a TypeError when \<^verbatim>\<open>data\<close> is empty, since
  \<^verbatim>\<open>data[0]\<close> is then \<^verbatim>\<open>undefined\<close>.
\<close>

definition normalizeData ::
  "(string \<Rightarrow> number) \<Rightarrow> ChartData list \<Rightarrow> Portfolio \<Rightarrow> error + ChartData list"
where
  "normalizeData sn data portfolio =
     (case data of
        [] \<Rightarrow> Inl TypeError
      | first # _ \<Rightarrow>
          Inr (map (normalize_point sn (baseValues sn first data) portfolio) data))"

section \<open>PortfolioManager.tsx\<close>

text \<open>
  \<^verbatim>\<open>handleSharesChange\<close> replaces the component's portfolio state by a function of the
  previous state; the model takes the previous state and returns the next. The result of
  \<^verbatim>\<open>new Date().toISOString()\<close> is the parameter \<open>now\<close>.
\<close>

definition handleSharesChange :: "string \<Rightarrow> string \<Rightarrow> number \<Rightarrow> Portfolio \<Rightarrow> Portfolio" where
  "handleSharesChange now instrument newShares prev =
     \<lparr> holdings =
         map (\<lambda>holding.
                if symbol holding = instrument then holding\<lparr>shares := Math_max0 newShares\<rparr>
                else holding)
           (holdings prev),
       lastUpdated = now \<rparr>"

text \<open>
  \<^verbatim>\<open>currentPrices[key] || 0\<close>: a missing entry, \<open>0\<close> and NaN all give \<open>0\<close>. The
  interface declares the entries as numbers; a \<^verbatim>\<open>null\<close> entry would give \<open>0\<close> like a
  missing one.
\<close>

definition price_or_zero :: "(string \<rightharpoonup> number) \<Rightarrow> string \<Rightarrow> number" where
  "price_or_zero currentPrices key =
     (case currentPrices key of
        None \<Rightarrow> Fin 0
      | Some v \<Rightarrow> if truthy v then v else Fin 0)"

text \<open>The items of \<^verbatim>\<open>pieData\<close> are pairs of \<^verbatim>\<open>name\<close> and \<^verbatim>\<open>value\<close>.\<close>

definition pieData :: "(string \<rightharpoonup> number) \<Rightarrow> Portfolio \<Rightarrow> (string \<times> number) list" where
  "pieData currentPrices portfolio =
     filter (\<lambda>item. greater_zero (snd item))
       (map (\<lambda>holding.
               (symbol holding,
                if symbol holding = ''CASH'' then shares holding
                else shares holding * price_or_zero currentPrices (symbol holding @ ''.AX'')))
          (holdings portfolio))"

definition totalValue :: "(string \<rightharpoonup> number) \<Rightarrow> Portfolio \<Rightarrow> number" where
  "totalValue currentPrices portfolio =
     foldl (\<lambda>sum item. sum + snd item) (Fin 0) (pieData currentPrices portfolio)"

text \<open>The three values computed for each row of the holdings table.\<close>

definition row_currentPrice :: "(string \<rightharpoonup> number) \<Rightarrow> PortfolioHolding \<Rightarrow> number" where
  "row_currentPrice currentPrices holding =
     (if symbol holding = ''CASH'' then Fin 1
      else price_or_zero currentPrices (symbol holding @ ''.AX''))"

definition row_value :: "(string \<rightharpoonup> number) \<Rightarrow> PortfolioHolding \<Rightarrow> number" where
  "row_value currentPrices holding = shares holding * row_currentPrice currentPrices holding"

definition row_weight :: "(string \<rightharpoonup> number) \<Rightarrow> Portfolio \<Rightarrow> PortfolioHolding \<Rightarrow> number" where
  "row_weight currentPrices portfolio holding =
     (if truthy (totalValue currentPrices portfolio)
      then row_value currentPrices holding / totalValue currentPrices portfolio * Fin 100
      else Fin 0)"

section \<open>Notions used to state the properties\<close>


text \<open>A holding that has a price: CASH, or an instrument with an entry in \<^verbatim>\<open>currentPrices\<close>.\<close>

definition priced :: "(string \<rightharpoonup> number) \<Rightarrow> PortfolioHolding \<Rightarrow> bool" where
  "priced currentPrices h = (symbol h = ''CASH'' \<or> currentPrices (symbol h @ ''.AX'') \<noteq> None)"

section \<open>Example inputs\<close>

text \<open>
  A string conversion for the closed examples below; none of them converts a string.
\<close>

definition sn_example :: "string \<Rightarrow> number" where
  "sn_example s = NaN"

text \<open>A holding of a finite number of shares.\<close>

definition mk_holding :: "string \<Rightarrow> rat \<Rightarrow> PortfolioHolding" where
  "mk_holding s n = \<lparr> symbol = s, shares = Fin n, currentPrice = None \<rparr>"

text \<open>One share of VAS and no cash.\<close>

definition one_vas :: Portfolio where
  "one_vas = \<lparr> holdings = [mk_holding ''VAS'' 1, mk_holding ''CASH'' 0],
               lastUpdated = ''2024-01-01T00:00:00.000Z'' \<rparr>"

text \<open>A series that has no entry in the first point and a price in the second.\<close>

definition late_data :: "ChartData list" where
  "late_data = [[(''date'', JStr ''Jan 2024'')],
                [(''date'', JStr ''Feb 2024''), (''VAS'', JNum (Fin 5))]]"

text \<open>Series A has no value in the first point; its base is the 10 of the second.\<close>

definition late_start :: "ChartData list" where
  "late_start = [[(''date'', JStr ''Jan 2024''), (''A'', JNull), (''B'', JNum (Fin 50))],
                 [(''date'', JStr ''Feb 2024''), (''A'', JNum (Fin 10)), (''B'', JNum (Fin 25))],
                 [(''date'', JStr ''Mar 2024''), (''A'', JNum (Fin 20)), (''B'', JNum (Fin 100))]]"

text \<open>Series A starts at a price of zero.\<close>

definition zero_base :: "ChartData list" where
  "zero_base = [[(''date'', JStr ''Jan 2024''), (''A'', JNum (Fin 0))],
                [(''date'', JStr ''Feb 2024''), (''A'', JNum (Fin 5))]]"


text \<open>One share of A, one share of B and no cash.\<close>

definition a_and_b :: Portfolio where
  "a_and_b = \<lparr> holdings = [mk_holding ''A'' 1, mk_holding ''B'' 1, mk_holding ''CASH'' 0],
               lastUpdated = ''2024-01-01T00:00:00.000Z'' \<rparr>"

text \<open>
  The portfolio both components create when nothing is stored: zero shares of every
  instrument of \<^verbatim>\<open>ETF_LIST\<close> (the suffix \<^verbatim>\<open>.AX\<close> removed) and zero cash.
\<close>

definition default_portfolio :: Portfolio where
  "default_portfolio =
     \<lparr> holdings = [mk_holding ''VAS'' 0, mk_holding ''VGS'' 0, mk_holding ''VGAD'' 0, mk_holding ''VAE'' 0,
                   mk_holding ''VGE'' 0, mk_holding ''IVE'' 0, mk_holding ''DJRE'' 0, mk_holding ''GOLD'' 0,
                   mk_holding ''CASH'' 0],
       lastUpdated = ''2024-01-01T00:00:00.000Z'' \<rparr>"

text \<open>One share of VAS, two of VGS, ten dollars of cash; only VAS has a price.\<close>

definition three_holdings :: Portfolio where
  "three_holdings = \<lparr> holdings = [mk_holding ''VAS'' 1, mk_holding ''VGS'' 2, mk_holding ''CASH'' 10],
                      lastUpdated = ''2024-01-01T00:00:00.000Z'' \<rparr>"

definition vas_price :: "string \<rightharpoonup> number" where
  "vas_price = [''VAS.AX'' \<mapsto> Fin 30]"

text \<open>A price near the top of the range of the doubles, about \<open>1.12e307\<close>.\<close>

definition huge_price :: rat where
  "huge_price = 2 ^ 1020"

text \<open>Series A starts at 1 and then has that price.\<close>

definition overflow_data :: "ChartData list" where
  "overflow_data = [[(''date'', JStr ''Jan 2024''), (''A'', JNum (Fin 1))],
                    [(''date'', JStr ''Feb 2024''), (''A'', JNum (Fin huge_price))]]"

section \<open>Rounding\<close>

lemma ilog2_bounds:
  assumes "0 < x"
  shows "2 powi (ilog2 x) \<le> x \<and> x < 2 powi (ilog2 x + 1)"
proof (cases "1 \<le> x")
  case True
  define f where "f = \<lfloor>x\<rfloor>"
  have f: "0 < f" using True by (simp add: f_def)
  have b1: "1 \<le> bitlen f" using f bitlen_eq_zero_iff[of f] bitlen_nonneg[of f] by linarith
  from bitlen_bounds[OF f] have lo: "2 ^ nat (bitlen f - 1) \<le> f" and hi: "f < 2 ^ nat (bitlen f)"
    by simp_all
  have "(2::rat) ^ nat (bitlen f - 1) = of_int (2 ^ nat (bitlen f - 1))" by simp
  also have "\<dots> \<le> of_int f" using lo by (simp only: of_int_le_iff)
  also have "\<dots> \<le> x" unfolding f_def by linarith
  finally have L: "(2::rat) powi (bitlen f - 1) \<le> x"
    using b1 by (simp add: power_int_nonneg_exp)
  have "f + 1 \<le> 2 ^ nat (bitlen f)" using hi by simp
  then have "of_int (f + 1) \<le> (of_int (2 ^ nat (bitlen f)) :: rat)" by (simp only: of_int_le_iff)
  then have "of_int (f + 1) \<le> (2::rat) ^ nat (bitlen f)" by (simp only: of_int_power of_int_numeral)
  moreover have "x < of_int (f + 1)" unfolding f_def by linarith
  ultimately have "x < 2 ^ nat (bitlen f)" by (rule order_less_le_trans[rotated])
  then have U: "x < (2::rat) powi (bitlen f - 1 + 1)"
    using b1 by (simp add: power_int_nonneg_exp)
  show ?thesis using True L U by (simp add: ilog2_def f_def)
next
  case False
  define y where "y = 1 / x"
  define c where "c = \<lceil>y\<rceil>"
  define k where "k = bitlen (c - 1)"
  have y1: "1 < y" using False assms by (simp add: y_def)
  have c2: "2 \<le> c" using y1 unfolding c_def by linarith
  then have c1: "0 < c - 1" by simp
  have k1: "1 \<le> k" using c1 bitlen_eq_zero_iff[of "c - 1"] bitlen_nonneg[of "c - 1"]
    unfolding k_def by linarith
  from bitlen_bounds[OF c1] have lo: "2 ^ nat (k - 1) \<le> c - 1" and hi: "c - 1 < 2 ^ nat k"
    by (simp_all add: k_def)
  have "of_int (c - 1) < y" unfolding c_def by linarith
  moreover have "(of_int (2 ^ nat (k - 1)) :: rat) \<le> of_int (c - 1)"
    using lo by (simp only: of_int_le_iff)
  then have "(2::rat) ^ nat (k - 1) \<le> of_int (c - 1)" by (simp only: of_int_power of_int_numeral)
  ultimately have ylo: "(2::rat) ^ nat (k - 1) < y" by (rule order_le_less_trans[rotated])
  have "c \<le> 2 ^ nat k" using hi by simp
  then have "(of_int c :: rat) \<le> of_int (2 ^ nat k)" by (simp only: of_int_le_iff)
  then have "(of_int c :: rat) \<le> 2 ^ nat k" by (simp only: of_int_power of_int_numeral)
  moreover have "y \<le> of_int c" unfolding c_def by linarith
  ultimately have yhi: "y \<le> (2::rat) ^ nat k" by (rule order_trans[rotated])
  have x: "x = 1 / y" using assms by (simp add: y_def)
  have ypos: "0 < y" using y1 by simp
  have L: "(2::rat) powi (- k) \<le> x"
  proof -
    have "1 / (2::rat) ^ nat k \<le> 1 / y"
      using yhi ypos by (intro divide_left_mono) simp_all
    then show ?thesis using k1 by (simp add: x power_int_minus_divide power_int_nonneg_exp)
  qed
  have U: "x < (2::rat) powi (- k + 1)"
  proof -
    have "1 / y < 1 / (2::rat) ^ nat (k - 1)"
      using ylo ypos by (intro divide_strict_left_mono) simp_all
    moreover have "(2::rat) powi (- k + 1) = 1 / 2 ^ nat (k - 1)"
    proof -
      have "- k + 1 = - (k - 1)" by simp
      then show ?thesis using k1 by (simp only: power_int_minus_divide) (simp add: power_int_nonneg_exp)
    qed
    ultimately show ?thesis by (simp add: x)
  qed
  show ?thesis using False L U by (simp add: ilog2_def y_def c_def k_def)
qed

lemma ilog2_ge:
  assumes "0 < x" and "2 powi n \<le> x"
  shows "n \<le> ilog2 x"
proof (rule ccontr)
  assume "\<not> n \<le> ilog2 x"
  then have "ilog2 x + 1 \<le> n" by simp
  then have "(2::rat) powi (ilog2 x + 1) \<le> 2 powi n"
    by (intro power_int_increasing) simp_all
  with ilog2_bounds[OF assms(1)] assms(2) show False by simp
qed

lemma ilog2_less:
  assumes "0 < x" and "x < 2 powi n"
  shows "ilog2 x < n"
proof (rule ccontr)
  assume "\<not> ilog2 x < n"
  then have "n \<le> ilog2 x" by simp
  then have "(2::rat) powi n \<le> 2 powi (ilog2 x)"
    by (intro power_int_increasing) simp_all
  with ilog2_bounds[OF assms(1)] assms(2) show False by simp
qed

lemma round_even_error: "\<bar>of_int (round_even z) - z\<bar> \<le> 1 / 2"
proof -
  have "of_int \<lfloor>z\<rfloor> \<le> z" "z < of_int \<lfloor>z\<rfloor> + 1" by linarith+
  then show ?thesis
    by (auto simp: round_even_def Let_def abs_le_iff)
qed

lemma round_even_of_int: "round_even (of_int k) = k"
  by (simp add: round_even_def)

lemma round_even_mono_int: "of_int k \<le> z \<Longrightarrow> k \<le> round_even z"
proof -
  assume "of_int k \<le> z"
  then have "k \<le> \<lfloor>z\<rfloor>" by (simp add: le_floor_iff)
  then show ?thesis by (auto simp: round_even_def Let_def)
qed

lemma round_double_unfold:
  assumes "x \<noteq> 0" and "e = max (- 1074) (ilog2 \<bar>x\<bar> - 52)"
    and "y = of_int (round_even (x / 2 powi e)) * 2 powi e"
  shows "round_double x = (if 2 powi 1024 \<le> \<bar>y\<bar> then (if 0 < x then PInf else NInf) else Fin y)"
  using assms by (simp add: round_double_def Let_def)

lemma round_double_exact:
  assumes x: "x = of_int m * 2 powi e" and m: "\<bar>m\<bar> < 2 ^ 53" and e: "- 1074 \<le> e"
    and r: "\<bar>x\<bar> < 2 powi 1024"
  shows "round_double x = Fin x"
proof (cases "x = 0")
  case True
  then show ?thesis by (simp add: round_double_def)
next
  case False
  define e' where "e' = max (- 1074) (ilog2 \<bar>x\<bar> - 52)"
  have pos: "0 < \<bar>x\<bar>" using False by simp
  have "\<bar>x\<bar> = of_int \<bar>m\<bar> * 2 powi e"
    by (simp add: x abs_mult)
  also have "\<dots> < of_int (2 ^ 53) * 2 powi e"
    using m by (intro mult_strict_right_mono) (simp_all only: of_int_less_iff zero_less_power_int zero_less_numeral)
  also have "\<dots> = 2 powi (53 + e)"
    by (simp add: power_int_add)
  finally have "ilog2 \<bar>x\<bar> < 53 + e" by (rule ilog2_less[OF pos])
  then have le: "e' \<le> e" using e by (simp add: e'_def)
  have "x / 2 powi e' = of_int m * (2 powi e / 2 powi e')"
    by (simp add: x)
  also have "2 powi e / 2 powi e' = (2::rat) powi (e - e')"
    by (simp add: power_int_diff)
  also have "\<dots> = 2 ^ nat (e - e')"
    using le by (simp add: power_int_nonneg_exp)
  finally have z: "x / 2 powi e' = of_int (m * 2 ^ nat (e - e'))"
    by simp
  have "of_int (round_even (x / 2 powi e')) * 2 powi e' = x / 2 powi e' * 2 powi e'"
    by (simp only: z round_even_of_int)
  also have "\<dots> = x" by simp
  finally have y: "x = of_int (round_even (x / 2 powi e')) * 2 powi e'" by simp
  from round_double_unfold[OF False e'_def y] r show ?thesis by simp
qed

lemma round_double_rel:
  assumes lo: "2 powi (- 1022) \<le> \<bar>x\<bar>" and hi: "\<bar>x\<bar> \<le> 2 powi 1023"
  shows "\<exists>d. \<bar>d\<bar> \<le> 1 / 2 ^ 53 \<and> round_double x = Fin (x * (1 + d))"
proof -
  have pos: "0 < \<bar>x\<bar>"
    using lo by (rule order_less_le_trans[rotated]) simp
  then have nz: "x \<noteq> 0" by simp
  define L where "L = ilog2 \<bar>x\<bar>"
  define e where "e = max (- 1074) (L - 52)"
  define y :: rat where "y = of_int (round_even (x / 2 powi e)) * 2 powi e"
  have "- 1022 \<le> L" unfolding L_def using pos lo by (rule ilog2_ge)
  then have e: "e = L - 52" by (simp add: e_def)
  have p: "(0::rat) < 2 powi e" by simp
  have "\<bar>y - x\<bar> = \<bar>of_int (round_even (x / 2 powi e)) - x / 2 powi e\<bar> * 2 powi e"
  proof -
    have "y - x = (of_int (round_even (x / 2 powi e)) - x / 2 powi e) * 2 powi e"
      by (simp add: y_def algebra_simps)
    then show ?thesis by (simp add: abs_mult)
  qed
  also have "\<dots> \<le> 1 / 2 * 2 powi e"
    using round_even_error[of "x / 2 powi e"] p by (intro mult_right_mono) simp_all
  also have "\<dots> = 2 powi L / 2 ^ 53"
  proof -
    have "(2::rat) powi L = 2 powi (e + 52)" by (simp add: e)
    also have "\<dots> = 2 powi e * 2 ^ 52" by (simp add: power_int_add)
    finally show ?thesis by simp
  qed
  also have "\<dots> \<le> \<bar>x\<bar> / 2 ^ 53"
    using ilog2_bounds[OF pos] by (intro divide_right_mono) (simp_all add: L_def)
  finally have err: "\<bar>y - x\<bar> \<le> \<bar>x\<bar> / 2 ^ 53" .
  define d where "d = (y - x) / x"
  have d: "\<bar>d\<bar> \<le> 1 / 2 ^ 53"
  proof -
    have "\<bar>d\<bar> = \<bar>y - x\<bar> / \<bar>x\<bar>" by (simp add: d_def)
    also have "\<dots> \<le> (\<bar>x\<bar> / 2 ^ 53) / \<bar>x\<bar>"
      using err pos by (intro divide_right_mono) simp_all
    also have "\<dots> = 1 / 2 ^ 53" using nz by simp
    finally show ?thesis .
  qed
  have yx: "y = x * (1 + d)" using nz by (simp add: d_def field_simps)
  have "\<bar>y\<bar> \<le> \<bar>x\<bar> + \<bar>y - x\<bar>" by linarith
  also have "\<dots> \<le> \<bar>x\<bar> + \<bar>x\<bar> / 2 ^ 53" using err by simp
  also have "\<dots> \<le> 2 powi 1023 + 2 powi 1023 / 2 ^ 53"
    using hi by (intro add_mono divide_right_mono) simp_all
  also have "\<dots> < 2 powi 1023 + 2 powi 1023" by simp
  also have "\<dots> = (2::rat) powi 1024" by simp
  finally have "\<not> 2 powi 1024 \<le> \<bar>y\<bar>" by simp
  with round_double_unfold[OF nz e_def[unfolded L_def] y_def] have "round_double x = Fin y"
    by simp
  with d yx show ?thesis by blast
qed

lemma round_double_overflow:
  assumes "2 powi 1024 \<le> x"
  shows "round_double x = PInf"
proof -
  have xpos: "0 < x"
    using assms by (rule order_less_le_trans[rotated]) simp
  then have nz: "x \<noteq> 0" and ax: "\<bar>x\<bar> = x" by simp_all
  define L where "L = ilog2 \<bar>x\<bar>"
  define e where "e = max (- 1074) (L - 52)"
  define y :: rat where "y = of_int (round_even (x / 2 powi e)) * 2 powi e"
  have L: "1024 \<le> L" unfolding L_def ax using xpos assms by (rule ilog2_ge)
  then have e: "e = L - 52" by (simp add: e_def)
  have p: "(0::rat) < 2 powi e" by simp
  have "(2::rat) powi L \<le> x" using ilog2_bounds[OF xpos] by (simp add: L_def ax)
  moreover have "(2::rat) powi L = 2 ^ 52 * 2 powi e"
  proof -
    have "(2::rat) powi L = 2 powi (e + 52)" by (simp add: e)
    also have "\<dots> = 2 ^ 52 * 2 powi e" by (simp add: power_int_add)
    finally show ?thesis .
  qed
  ultimately have "2 ^ 52 * 2 powi e \<le> x" by simp
  then have "(2::rat) ^ 52 \<le> x / 2 powi e" using p by (simp add: pos_le_divide_eq)
  then have "of_int (2 ^ 52) \<le> x / 2 powi e" by simp
  then have "2 ^ 52 \<le> round_even (x / 2 powi e)" by (rule round_even_mono_int)
  then have "(of_int (2 ^ 52) :: rat) \<le> of_int (round_even (x / 2 powi e))"
    by (simp only: of_int_le_iff)
  then have "of_int (2 ^ 52) * 2 powi e \<le> y"
    unfolding y_def using p by (intro mult_right_mono) simp_all
  then have "2 powi L \<le> y" by (simp add: \<open>(2::rat) powi L = 2 ^ 52 * 2 powi e\<close>)
  moreover have "(2::rat) powi 1024 \<le> 2 powi L" using L by (intro power_int_increasing) simp_all
  ultimately have "2 powi 1024 \<le> \<bar>y\<bar>" by linarith
  with round_double_unfold[OF nz e_def[unfolded L_def] y_def] xpos show ?thesis by simp
qed

lemma round_even_le_int:
  assumes "z \<le> of_int k"
  shows "round_even z \<le> k"
proof -
  have f: "\<lfloor>z\<rfloor> \<le> k" using assms by (simp add: floor_le_iff)
  show ?thesis
  proof (cases "\<lfloor>z\<rfloor> = k")
    case True
    have "of_int \<lfloor>z\<rfloor> \<le> z" by simp
    with True assms have "z - of_int \<lfloor>z\<rfloor> = 0" by simp
    then show ?thesis using True by (simp add: round_even_def Let_def)
  next
    case False
    with f have "\<lfloor>z\<rfloor> + 1 \<le> k" by simp
    then show ?thesis by (auto simp: round_even_def Let_def)
  qed
qed

lemma round_double_exact_le:
  assumes x: "x = of_int m * 2 powi e" and m: "\<bar>m\<bar> \<le> 2 ^ 53" and e: "- 1074 \<le> e"
    and r: "\<bar>x\<bar> < 2 powi 1024"
  shows "round_double x = Fin x"
proof (cases "\<bar>m\<bar> < 2 ^ 53")
  case True
  from x True e r show ?thesis by (rule round_double_exact)
next
  case False
  with m have "\<bar>m\<bar> = 2 ^ 53" by simp
  then have "m = 2 ^ 53 \<or> m = - (2 ^ 53)" by linarith
  then have m2: "m = 2 * (m div 2)" and h: "\<bar>m div 2\<bar> < 2 ^ 53"
    by auto
  have "x = of_int (2 * (m div 2)) * 2 powi e" using m2 x by simp
  also have "\<dots> = of_int (m div 2) * (2 * 2 powi e)" by simp
  also have "2 * 2 powi e = (2::rat) powi (e + 1)" by (simp add: power_int_add)
  finally have x': "x = of_int (m div 2) * 2 powi (e + 1)" .
  from x' h _ r show ?thesis by (rule round_double_exact) (use e in simp)
qed

lemma round_double_idem:
  assumes "round_double x = Fin y"
  shows "round_double y = Fin y"
proof (cases "x = 0")
  case True
  with assms show ?thesis by (simp add: round_double_def)
next
  case False
  define L where "L = ilog2 \<bar>x\<bar>"
  define e where "e = max (- 1074) (L - 52)"
  define m where "m = round_even (x / 2 powi e)"
  define y' :: rat where "y' = of_int m * 2 powi e"
  have pos: "0 < \<bar>x\<bar>" using False by simp
  from round_double_unfold[OF False e_def[unfolded L_def] y'_def[unfolded m_def]] assms
  have y: "y = y'" and r: "\<bar>y'\<bar> < 2 powi 1024"
    by (auto split: if_splits)
  have e1: "- 1074 \<le> e" and e2: "L - 52 \<le> e" by (simp_all add: e_def)
  have p: "(0::rat) < 2 powi e" by simp
  have "\<bar>x\<bar> < 2 powi (L + 1)" using ilog2_bounds[OF pos] by (simp add: L_def)
  also have "\<dots> = 2 ^ 53 * 2 powi (L - 52)"
  proof -
    have "(2::rat) powi (53 + (L - 52)) = 2 powi 53 * 2 powi (L - 52)"
      by (rule power_int_add) simp
    moreover have "53 + (L - 52) = L + 1" by simp
    ultimately show ?thesis by simp
  qed
  also have "\<dots> \<le> 2 ^ 53 * 2 powi e"
    using e2 by (intro mult_left_mono power_int_increasing) simp_all
  finally have "\<bar>x\<bar> / 2 powi e < 2 ^ 53" using p by (simp add: pos_divide_less_eq)
  then have z: "\<bar>x / 2 powi e\<bar> < 2 ^ 53" by simp
  have "x / 2 powi e \<le> 2 ^ 53" using z by linarith
  then have "x / 2 powi e \<le> of_int (2 ^ 53)" by simp
  then have u: "m \<le> 2 ^ 53" unfolding m_def by (rule round_even_le_int)
  have "- (2 ^ 53) \<le> x / 2 powi e" using z by linarith
  then have "of_int (- (2 ^ 53)) \<le> x / 2 powi e" by simp
  then have l: "- (2 ^ 53) \<le> m" unfolding m_def by (rule round_even_mono_int)
  from u l have m: "\<bar>m\<bar> \<le> 2 ^ 53" by simp
  from y'_def m e1 r have "round_double y' = Fin y'" by (rule round_double_exact_le)
  then show ?thesis by (simp add: y)
qed

lemma plus_zero_idem: "(x + Fin v) + Fin 0 = x + Fin v"
proof (cases x)
  case (Fin a)
  show ?thesis
  proof (cases "round_double (a + v)")
    case (Fin c)
    then have "round_double c = Fin c" by (rule round_double_idem)
    then show ?thesis using Fin \<open>x = Fin a\<close> by simp
  qed (simp_all add: \<open>x = Fin a\<close>)
qed simp_all

lemma round_double_0 [simp]: "round_double 0 = Fin 0"
  by (simp add: round_double_def)

lemma round_double_of_int:
  assumes "\<bar>k\<bar> < 2 ^ 53"
  shows "round_double (of_int k) = Fin (of_int k)"
proof (rule round_double_exact[where m = k and e = 0])
  show "rat_of_int k = of_int k * 2 powi 0" by simp
  show "\<bar>k\<bar> < 2 ^ 53" by (rule assms)
  show "- 1074 \<le> (0::int)" by simp
  have "\<bar>rat_of_int k\<bar> = of_int \<bar>k\<bar>" by simp
  also have "\<dots> < of_int (2 ^ 53)" using assms by (simp only: of_int_less_iff)
  also have "\<dots> \<le> 2 powi 1024" by simp
  finally show "\<bar>rat_of_int k\<bar> < 2 powi 1024" .
qed

lemma round_double_1 [simp]: "round_double 1 = Fin 1"
  using round_double_of_int[of 1] by simp

lemma round_double_numeral:
  "numeral w < (2::int) ^ 53 \<Longrightarrow> round_double (numeral w) = Fin (numeral w)"
  using round_double_of_int[of "numeral w"] by simp

lemma round_double_three_quarters: "round_double (3 / 4) = Fin (3 / 4)"
  by (rule round_double_exact[where m = 3 and e = "- 2"]) simp_all

section \<open>Evaluation on concrete inputs\<close>

text \<open>The definitions the simplifier unfolds to run the model on an explicit input.\<close>

lemmas eval_normalize =
  normalizeData_def normalize_point_def baseValues_def Object_keys_def get_def is_valid_def
  base_of_def weightedTotal_def totalInvestment_def not_cash_def mk_holding_def

lemmas eval_valuation =
  row_weight_def row_value_def row_currentPrice_def totalValue_def pieData_def
  price_or_zero_def mk_holding_def

lemmas eval_round =
  round_double_numeral round_double_three_quarters

section \<open>Empty input\<close>

text \<open>
  C10: \<^verbatim>\<open>normalizeData\<close> reads \<^verbatim>\<open>data[0]\<close> unconditionally, so it fails on the empty
  list instead of returning an empty output, and it returns (one output point per input
  point) on every non-empty list.
\<close>

theorem normalizeData_total_iff_nonempty:
  "normalizeData sn [] portfolio = Inl TypeError \<and>
   (data \<noteq> [] \<longrightarrow>
      (\<exists>out. normalizeData sn data portfolio = Inr out \<and> length out = length data))"
  by (cases data) (simp_all add: normalizeData_def)

theorem normalizeData_total_iff_nonempty_witness:
  "normalizeData sn_example [] one_vas = Inl TypeError \<and>
   (\<exists>out. normalizeData sn_example late_data one_vas = Inr out \<and> length out = 2)"
proof -
  have ne: "late_data \<noteq> []" and len: "length late_data = 2"
    by (simp_all add: late_data_def)
  from normalizeData_total_iff_nonempty [of sn_example one_vas late_data] ne len
  show ?thesis by auto
qed

section \<open>Objects and the base-value scan\<close>

lemma map_of_put: "map_of (put obj k v) k' = (if k' = k then Some v else map_of obj k')"
  by (induction obj) auto

lemma get_put: "get (put obj k v) k' = (if k' = k then v else get obj k')"
  by (simp add: get_def map_of_put)

lemma get_Nil: "get [] key = JUndefined"
  by (simp add: get_def)

lemma get_defined_in_keys: "get obj key \<noteq> JUndefined \<Longrightarrow> key \<in> set (Object_keys obj)"
  by (auto simp: get_def Object_keys_def split: option.splits dest!: map_of_SomeD intro: rev_image_eqI)

lemma is_valid_in_keys: "is_valid (get obj key) \<Longrightarrow> key \<in> set (Object_keys obj)"
  by (rule get_defined_in_keys) (simp add: is_valid_def)

lemma get_normalized_values:
  "get (normalized_values sn bv point ks np) key =
     (if key \<in> set ks \<and> key \<noteq> ''date'' \<and> is_valid (get point key)
      then JNum (Number sn (get point key) / base_of bv key * Fin 100)
      else get np key)"
  by (induction ks arbitrary: np) (auto simp: get_put)

lemma get_Cons: "get ((k, v) # obj) key = (if key = k then v else get obj key)"
  by (simp add: get_def)

lemma get_normalize_point:
  "key \<noteq> ''TOTAL'' \<Longrightarrow> key \<noteq> ''date'' \<Longrightarrow>
   get (normalize_point sn bv portfolio point) key =
     (if is_valid (get point key)
      then JNum (Number sn (get point key) / base_of bv key * Fin 100)
      else JUndefined)"
  by (auto simp: normalize_point_def Let_def get_put get_normalized_values get_Cons get_Nil
      dest: is_valid_in_keys)

lemma get_normalize_point_TOTAL:
  "get (normalize_point sn bv portfolio point) ''TOTAL'' =
     JNum (weightedTotal sn (totalInvestment portfolio)
             (normalized_values sn bv point (Object_keys point) [(''date'', get point ''date'')])
             portfolio)"
  by (simp add: normalize_point_def Let_def get_put)

lemma scan_keys_apply:
  "scan_keys sn data ks bv key =
     (if key \<in> set ks \<and> key \<noteq> ''date'' \<and> first_valid sn data key \<noteq> None
      then first_valid sn data key else bv key)"
  by (induction ks arbitrary: bv) (auto split: option.splits)

lemma baseValues_apply:
  "baseValues sn first data key =
     (if key \<in> set (Object_keys first) \<and> key \<noteq> ''date'' then first_valid sn data key else None)"
  by (auto simp: baseValues_def scan_keys_apply)

lemma first_valid_skip:
  "\<forall>q \<in> set pre. \<not> is_valid (get q key) \<Longrightarrow>
   first_valid sn (pre @ rest) key = first_valid sn rest key"
  by (induction pre) simp_all


lemma NaN_plus: "NaN + (x::number) = NaN"
  by simp
lemma plus_NaN: "(x::number) + NaN = NaN"
  by (cases x) simp_all
lemma NaN_times: "NaN * (x::number) = NaN"
  by simp
lemma times_NaN: "(x::number) * NaN = NaN"
  by (cases x) simp_all
lemma NaN_div: "NaN / (x::number) = NaN"
  by simp
lemma div_NaN: "(x::number) / NaN = NaN"
  by (cases x) simp_all

lemma normalizeData_nonempty:
  "data \<noteq> [] \<Longrightarrow>
   normalizeData sn data portfolio =
     Inr (map (normalize_point sn (baseValues sn (hd data) data) portfolio) data)"
  by (cases data) (simp_all add: normalizeData_def)

lemma weighted_step_NaN:
  "foldl (\<lambda>sum holding.
            if get np (symbol holding) \<noteq> JUndefined
            then sum + Number sn (get np (symbol holding)) * (shares holding / ti)
            else sum) NaN hs = NaN"
  by (induction hs) simp_all

lemma weighted_fold_NaN:
  "h \<in> set hs \<Longrightarrow> get np (symbol h) = JNum NaN \<Longrightarrow>
   foldl (\<lambda>sum holding.
            if get np (symbol holding) \<noteq> JUndefined
            then sum + Number sn (get np (symbol holding)) * (shares holding / ti)
            else sum) acc hs = NaN"
proof (induction hs arbitrary: acc)
  case Nil
  then show ?case by simp
next
  case (Cons a hs)
  show ?case
  proof (cases "a = h")
    case True
    with Cons.prems show ?thesis by (simp add: plus_NaN weighted_step_NaN)
  next
    case False
    with Cons.prems have "h \<in> set hs" by simp
    from Cons.IH[OF this Cons.prems(2)] show ?thesis by simp
  qed
qed

lemma weightedTotal_NaN:
  "h \<in> set (holdings portfolio) \<Longrightarrow> symbol h \<noteq> ''CASH'' \<Longrightarrow> get np (symbol h) = JNum NaN \<Longrightarrow>
   weightedTotal sn ti np portfolio = NaN"
  unfolding weightedTotal_def
  by (rule weighted_fold_NaN[where h = h]) (simp_all add: not_cash_def)

lemma normalized_value_at:
  assumes "data \<noteq> []" and "i < length data" and "key \<noteq> ''date''" and "key \<noteq> ''TOTAL''"
    and "is_valid (get (data ! i) key)"
  shows "\<exists>out. normalizeData sn data portfolio = Inr out \<and> length out = length data \<and>
           get (out ! i) key =
             JNum (Number sn (get (data ! i) key)
                     / base_of (baseValues sn (hd data) data) key * Fin 100)"
  using assms by (simp add: normalizeData_nonempty get_normalize_point)

lemma first_valid_at:
  assumes "\<forall>q \<in> set pre. \<not> is_valid (get q key)" and "is_valid (get pt key)"
  shows "first_valid sn (pre @ pt # post) key = Some (Number sn (get pt key))"
  using assms by (simp add: first_valid_skip)

lemma base_of_first_valid:
  assumes "data = pre @ pt # post" and "\<forall>q \<in> set pre. \<not> is_valid (get q key)"
    and "is_valid (get pt key)"
    and "key \<in> set (Object_keys (hd data))" and "key \<noteq> ''date''"
  shows "base_of (baseValues sn (hd data) data) key = Number sn (get pt key)"
  using assms(4,5) first_valid_at[OF assms(2,3), of sn post]
  by (simp add: base_of_def baseValues_apply assms(1))

section \<open>A series that starts after the first point\<close>

text \<open>
  C9: the base-value scan visits only the keys of the first data point. A key that the
  first point does not have gets no base value, although a later point has a value for
  it; that later value is normalized to NaN (the divisor is \<^verbatim>\<open>undefined\<close>), and the
  NaN reaches TOTAL as soon as a non-CASH holding has that symbol.
\<close>

theorem late_key_has_no_base:
  assumes "data \<noteq> []" and "key \<notin> set (Object_keys (hd data))"
    and "key \<noteq> ''date''" and "key \<noteq> ''TOTAL''"
    and "i < length data" and "is_valid (get (data ! i) key)"
  shows "baseValues sn (hd data) data key = None \<and>
    (\<exists>out. normalizeData sn data portfolio = Inr out \<and>
       get (out ! i) key = JNum NaN \<and>
       ((\<exists>h \<in> set (holdings portfolio). symbol h = key \<and> key \<noteq> ''CASH'') \<longrightarrow>
          get (out ! i) ''TOTAL'' = JNum NaN))"
proof -
  let ?bv = "baseValues sn (hd data) data"
  let ?pt = "data ! i"
  let ?np = "normalized_values sn ?bv ?pt (Object_keys ?pt) [(''date'', get ?pt ''date'')]"
  let ?out = "map (normalize_point sn ?bv portfolio) data"
  have base: "?bv key = None"
    using assms(2) by (simp add: baseValues_apply)
  have val: "Number sn (get ?pt key) / base_of ?bv key * Fin 100 = NaN"
    by (simp add: base base_of_def div_NaN)
  have out: "normalizeData sn data portfolio = Inr ?out"
    using assms(1) by (rule normalizeData_nonempty)
  have nth: "?out ! i = normalize_point sn ?bv portfolio ?pt"
    using assms(5) by simp
  have key: "get (?out ! i) key = JNum NaN"
    using assms(3,4,5,6) by (simp add: get_normalize_point val)
  have np: "get ?np key = JNum NaN"
    using assms(3,6) is_valid_in_keys[OF assms(6)]
    by (simp add: get_normalized_values val)
  have tot: "get (?out ! i) ''TOTAL'' = JNum NaN"
    if "\<exists>h \<in> set (holdings portfolio). symbol h = key \<and> key \<noteq> ''CASH''"
  proof -
    from that obtain h where "h \<in> set (holdings portfolio)" "symbol h = key" "key \<noteq> ''CASH''"
      by blast
    then have "weightedTotal sn (totalInvestment portfolio) ?np portfolio = NaN"
      using np by (intro weightedTotal_NaN[where h = h]) simp_all
    then show ?thesis
      using assms(5) by (simp add: get_normalize_point_TOTAL)
  qed
  from base out key tot show ?thesis by blast
qed

theorem late_key_has_no_base_witness:
  "baseValues sn_example (hd late_data) late_data ''VAS'' = None \<and>
   (\<exists>out. normalizeData sn_example late_data one_vas = Inr out \<and>
      get (out ! 1) ''VAS'' = JNum NaN \<and> get (out ! 1) ''TOTAL'' = JNum NaN)"
proof -
  have a: "late_data \<noteq> []" and b: "''VAS'' \<notin> set (Object_keys (hd late_data))"
    and c: "''VAS'' \<noteq> ''date''" and d: "''VAS'' \<noteq> ''TOTAL''"
    and e: "1 < length late_data" and f: "is_valid (get (late_data ! 1) ''VAS'')"
    by (simp_all add: late_data_def Object_keys_def get_def is_valid_def)
  have g: "\<exists>h \<in> set (holdings one_vas). symbol h = ''VAS'' \<and> ''VAS'' \<noteq> ''CASH''"
    by (simp add: one_vas_def mk_holding_def)
  from late_key_has_no_base [OF a b c d e f, of sn_example one_vas] g
  show ?thesis by blast
qed

section \<open>The first valid point of a series\<close>

text \<open>
  C3, as stated: the normalized value at the first valid index of every series with a
  valid value is 100. A series that starts at zero refutes it: its first normalized
  value is \<open>0 / 0 * 100\<close>, which is NaN.
\<close>

theorem first_point_not_100_counterexample:
  "normalizeData sn_example [[(''date'', JStr ''Jan 2024''), (''VAS'', JNum (Fin 0))]] one_vas =
     Inr [[(''date'', JStr ''Jan 2024''), (''VAS'', JNum NaN), (''TOTAL'', JNum NaN)]] \<and>
   JNum NaN \<noteq> JNum (Fin 100)"
  by (simp add: eval_normalize eval_round one_vas_def)

text \<open>
  C3, amended: where the first valid value of a series is a finite number other than
  zero and the first data point has the key (so that the scan finds the base), the
  normalized value at that first valid index is exactly 100. The points before it are
  \<open>pre\<close>, the point itself is \<open>pt\<close>.
\<close>

theorem first_valid_point_is_100:
  assumes "data = pre @ pt # post"
    and "\<forall>q \<in> set pre. \<not> is_valid (get q key)"
    and "get pt key = JNum (Fin b)" and "b \<noteq> 0"
    and "key \<in> set (Object_keys (hd data))" and "key \<noteq> ''date''" and "key \<noteq> ''TOTAL''"
  shows "\<exists>out. normalizeData sn data portfolio = Inr out \<and>
           get (out ! length pre) key = JNum (Fin 100)"
proof -
  have valid: "is_valid (get pt key)"
    by (simp add: assms(3) is_valid_def)
  have at: "data ! length pre = pt" and ne: "data \<noteq> []" and len: "length pre < length data"
    by (simp_all add: assms(1))
  have base: "base_of (baseValues sn (hd data) data) key = Fin b"
    using base_of_first_valid[OF assms(1,2) valid assms(5,6), of sn] by (simp add: assms(3))
  from normalized_value_at[OF ne len assms(6,7), of sn portfolio] valid
  show ?thesis
    by (auto simp: at base assms(3,4))
qed

theorem first_valid_point_is_100_witness:
  "\<exists>out. normalizeData sn_example late_start a_and_b = Inr out \<and> get (out ! 1) ''A'' = JNum (Fin 100)"
proof -
  have a: "late_start = [late_start ! 0] @ late_start ! 1 # [late_start ! 2]"
    and b: "\<forall>q \<in> set [late_start ! 0]. \<not> is_valid (get q ''A'')"
    and c: "get (late_start ! 1) ''A'' = JNum (Fin 10)" and d: "(10::rat) \<noteq> 0"
    and e: "''A'' \<in> set (Object_keys (hd late_start))"
    and f: "''A'' \<noteq> ''date''" and g: "''A'' \<noteq> ''TOTAL''"
    by (simp_all add: late_start_def Object_keys_def get_def is_valid_def)
  from first_valid_point_is_100 [OF a b c d e f g, of sn_example a_and_b]
  show ?thesis by simp
qed

section \<open>A base of zero\<close>

text \<open>
  C2, as stated: a base of exactly zero makes normalization fail with a DegenerateBase
  condition. The function has no such condition: it returns, with NaN at the base index
  and an infinity where a later price is not zero.
\<close>

theorem zero_base_counterexample:
  "normalizeData sn_example zero_base one_vas =
     Inr [[(''date'', JStr ''Jan 2024''), (''A'', JNum NaN), (''TOTAL'', JNum (Fin 0))],
          [(''date'', JStr ''Feb 2024''), (''A'', JNum PInf), (''TOTAL'', JNum (Fin 0))]]"
  by (simp add: eval_normalize eval_round zero_base_def one_vas_def)

text \<open>
  C2, amended: with a base of exactly zero \<^verbatim>\<open>normalizeData\<close> still returns one output
  point per input point and raises nothing; the division by the zero base is carried out
  by the rules of IEEE-754, so the normalized value is NaN at the base index and
  wherever the raw value is zero, and an infinity wherever the raw value is a finite
  number other than zero. The sign of that infinity depends on the signs of the raw value
  and of the zero base, and is left open.
\<close>

theorem zero_base_divides_silently:
  assumes "data = pre @ pt # post"
    and "\<forall>q \<in> set pre. \<not> is_valid (get q key)"
    and "get pt key = JNum (Fin 0)"
    and "key \<in> set (Object_keys (hd data))" and "key \<noteq> ''date''" and "key \<noteq> ''TOTAL''"
  shows "\<exists>out. normalizeData sn data portfolio = Inr out \<and> length out = length data \<and>
           get (out ! length pre) key = JNum NaN \<and>
           (\<forall>i < length data. \<forall>v. get (data ! i) key = JNum (Fin v) \<longrightarrow>
              (v = 0 \<longrightarrow> get (out ! i) key = JNum NaN) \<and>
              (v \<noteq> 0 \<longrightarrow> get (out ! i) key = JNum PInf \<or> get (out ! i) key = JNum NInf))"
proof -
  let ?out = "map (normalize_point sn (baseValues sn (hd data) data) portfolio) data"
  have valid: "is_valid (get pt key)"
    by (simp add: assms(3) is_valid_def)
  have at: "data ! length pre = pt" and ne: "data \<noteq> []" and len: "length pre < length data"
    by (simp_all add: assms(1))
  have base: "base_of (baseValues sn (hd data) data) key = Fin 0"
    using base_of_first_valid[OF assms(1,2) valid assms(4,5), of sn] by (simp add: assms(3))
  have out: "normalizeData sn data portfolio = Inr ?out"
    using ne by (rule normalizeData_nonempty)
  have each: "get (?out ! i) key = JNum (if v = 0 then NaN else if 0 < v then PInf else NInf)"
    if "i < length data" and "get (data ! i) key = JNum (Fin v)" for i v
    using that assms(5,6) by (simp add: get_normalize_point is_valid_def base)
  have "get (?out ! length pre) key = JNum NaN"
    using each[OF len, of 0] by (simp add: at assms(3))
  moreover have "length ?out = length data" by simp
  moreover have "\<forall>i < length data. \<forall>v. get (data ! i) key = JNum (Fin v) \<longrightarrow>
              (v = 0 \<longrightarrow> get (?out ! i) key = JNum NaN) \<and>
              (v \<noteq> 0 \<longrightarrow> get (?out ! i) key = JNum PInf \<or> get (?out ! i) key = JNum NInf)"
    using each by (simp del: nth_map)
  ultimately show ?thesis using out by blast
qed

theorem zero_base_divides_silently_witness:
  "\<exists>out. normalizeData sn_example zero_base one_vas = Inr out \<and> length out = 2 \<and>
         get (out ! 0) ''A'' = JNum NaN \<and>
         (get (out ! 1) ''A'' = JNum PInf \<or> get (out ! 1) ''A'' = JNum NInf)"
proof -
  have a: "zero_base = [] @ zero_base ! 0 # [zero_base ! 1]"
    and b: "\<forall>q \<in> set []. \<not> is_valid (get q ''A'')"
    and c: "get (zero_base ! 0) ''A'' = JNum (Fin 0)"
    and e: "''A'' \<in> set (Object_keys (hd zero_base))"
    and f: "''A'' \<noteq> ''date''" and g: "''A'' \<noteq> ''TOTAL''"
    and len: "length zero_base = 2" and h: "get (zero_base ! 1) ''A'' = JNum (Fin 5)"
    by (simp_all add: zero_base_def Object_keys_def get_def is_valid_def)
  from zero_base_divides_silently [OF a b c e f g, of sn_example one_vas]
  obtain out where out:
    "normalizeData sn_example zero_base one_vas = Inr out \<and> length out = length zero_base \<and>
     get (out ! length ([]::ChartData list)) ''A'' = JNum NaN \<and>
     (\<forall>i < length zero_base. \<forall>v. get (zero_base ! i) ''A'' = JNum (Fin v) \<longrightarrow>
        (v = 0 \<longrightarrow> get (out ! i) ''A'' = JNum NaN) \<and>
        (v \<noteq> 0 \<longrightarrow> get (out ! i) ''A'' = JNum PInf \<or> get (out ! i) ''A'' = JNum NInf))" ..
  then have "1 < length zero_base \<longrightarrow> get (zero_base ! 1) ''A'' = JNum (Fin 5) \<longrightarrow>
      ((5::rat) \<noteq> 0 \<longrightarrow> get (out ! 1) ''A'' = JNum PInf \<or> get (out ! 1) ''A'' = JNum NInf)"
    by blast
  with len h have "get (out ! 1) ''A'' = JNum PInf \<or> get (out ! 1) ''A'' = JNum NInf" by simp
  with out len show ?thesis by simp
qed

section \<open>Round trip\<close>

lemma times_rel:
  assumes "2 powi (- 1022) \<le> \<bar>a * b\<bar>" and "\<bar>a * b\<bar> \<le> 2 powi 1023"
  shows "\<exists>d. \<bar>d\<bar> \<le> 1 / 2 ^ 53 \<and> Fin a * Fin b = Fin (a * b * (1 + d))"
proof (cases "a = 1 \<or> b = 1")
  case True
  then have "Fin a * Fin b = Fin (a * b * (1 + 0))" by auto
  moreover have "\<bar>0::rat\<bar> \<le> 1 / 2 ^ 53" by simp
  ultimately show ?thesis by blast
next
  case False
  with round_double_rel[OF assms] show ?thesis by simp
qed

lemma divide_rel:
  assumes "b \<noteq> 0" and "2 powi (- 1022) \<le> \<bar>a / b\<bar>" and "\<bar>a / b\<bar> \<le> 2 powi 1023"
  shows "\<exists>d. \<bar>d\<bar> \<le> 1 / 2 ^ 53 \<and> Fin a / Fin b = Fin (a / b * (1 + d))"
  using round_double_rel[OF assms(2,3)] assms(1) by simp

lemma scaled_range:
  fixes x t lo hi :: rat
  assumes "lo \<le> \<bar>x\<bar>" and "\<bar>x\<bar> \<le> hi" and "1 / 2 \<le> t" and "t \<le> 2" and "0 \<le> lo"
  shows "lo / 2 \<le> \<bar>x * t\<bar> \<and> \<bar>x * t\<bar> \<le> 2 * hi"
proof -
  have t: "0 < t" using assms(3) by simp
  then have eq: "\<bar>x * t\<bar> = \<bar>x\<bar> * t" by (simp add: abs_mult)
  have "lo * (1 / 2) \<le> \<bar>x\<bar> * t"
    using assms by (intro mult_mono) simp_all
  moreover have "\<bar>x\<bar> * t \<le> hi * 2"
    using assms t by (intro mult_mono) simp_all
  ultimately show ?thesis by (simp add: eq)
qed

lemma error_step:
  fixes s d u \<alpha> :: rat
  assumes "\<bar>s - 1\<bar> \<le> \<alpha>" and "\<bar>d\<bar> \<le> u"
  shows "\<bar>s * (1 + d) - 1\<bar> \<le> \<alpha> + u + \<alpha> * u"
proof -
  have "s * (1 + d) - 1 = (s - 1) + d + (s - 1) * d" by (simp add: algebra_simps)
  then have "\<bar>s * (1 + d) - 1\<bar> \<le> \<bar>s - 1\<bar> + \<bar>d\<bar> + \<bar>(s - 1) * d\<bar>" by linarith
  also have "\<bar>(s - 1) * d\<bar> = \<bar>s - 1\<bar> * \<bar>d\<bar>" by (simp add: abs_mult)
  also have "\<bar>s - 1\<bar> + \<bar>d\<bar> + \<bar>s - 1\<bar> * \<bar>d\<bar> \<le> \<alpha> + u + \<alpha> * u"
    using assms by (intro add_mono mult_mono) simp_all
  finally show ?thesis .
qed

lemma half_two:
  fixes s \<alpha> :: rat
  assumes "\<bar>s - 1\<bar> \<le> \<alpha>" and "\<alpha> \<le> 1 / 2"
  shows "1 / 2 \<le> s" and "s \<le> 2"
  using assms by linarith+

lemma in_range:
  fixes x a A B c :: rat
  assumes "a \<le> A" and "A \<le> x" and "x \<le> B" and "B \<le> c"
  shows "a \<le> x" and "x \<le> c"
  using assms by linarith+

lemma times100_range:
  fixes x lo hi :: rat
  assumes "lo \<le> \<bar>x\<bar>" and "\<bar>x\<bar> \<le> hi"
  shows "100 * lo \<le> \<bar>x * 100\<bar>" and "\<bar>x * 100\<bar> \<le> 100 * hi"
  using assms by (simp_all add: abs_mult)

lemma round_trip_error:
  fixes v b :: rat
  assumes b1: "1 / 2 ^ 500 \<le> \<bar>b\<bar>" and b2: "\<bar>b\<bar> \<le> 2 ^ 500"
    and v1: "1 / 2 ^ 500 \<le> \<bar>v\<bar>" and v2: "\<bar>v\<bar> \<le> 2 ^ 500"
  shows "\<exists>n r. Fin v / Fin b * Fin 100 = Fin n \<and> Fin n * Fin b / Fin 100 = Fin r \<and>
           \<bar>r - v\<bar> \<le> \<bar>v\<bar> / 2 ^ 50"
proof -
  define u :: rat where "u = 1 / 2 ^ 53"
  define \<alpha>2 where "\<alpha>2 = u + u + u * u"
  define \<alpha>3 where "\<alpha>3 = \<alpha>2 + u + \<alpha>2 * u"
  define \<alpha>4 where "\<alpha>4 = \<alpha>3 + u + \<alpha>3 * u"
  define lo :: rat where "lo = 1 / 2 ^ 500"
  define hi :: rat where "hi = 2 ^ 500"
  have small: "u \<le> 1 / 2" "\<alpha>2 \<le> 1 / 2" "\<alpha>3 \<le> 1 / 2" "\<alpha>4 \<le> 1 / 2 ^ 50"
    by (simp_all add: \<alpha>4_def \<alpha>3_def \<alpha>2_def u_def)
  have lohi: "0 < lo" "0 \<le> lo" "0 < hi"
    by (simp_all add: lo_def hi_def)
  have range:
    "2 powi (- 1022) \<le> lo / hi" "hi / lo \<le> 2 powi 1023"
    "2 powi (- 1022) \<le> 100 * (lo / hi) / 2" "2 * (100 * (hi / lo)) \<le> 2 powi 1023"
    "2 powi (- 1022) \<le> 100 * lo / 2" "2 * (100 * hi) \<le> 2 powi 1023"
    "2 powi (- 1022) \<le> lo / 2" "2 * hi \<le> 2 powi 1023"
    by (simp_all add: lo_def hi_def)
  note b1 = b1[folded lo_def] and b2 = b2[folded hi_def]
    and v1 = v1[folded lo_def] and v2 = v2[folded hi_def]
  have bpos: "0 < \<bar>b\<bar>"
    using lohi(1) b1 by (rule order_less_le_trans)
  then have bnz: "b \<noteq> 0" by simp
  have "0 \<le> \<bar>v\<bar>" by simp
  then have "lo / hi \<le> \<bar>v\<bar> / \<bar>b\<bar>"
    using v1 bpos b2 by (rule frac_le)
  then have q1: "lo / hi \<le> \<bar>v / b\<bar>" by (simp only: abs_divide)
  have "0 \<le> hi" using lohi(3) by simp
  then have "\<bar>v\<bar> / \<bar>b\<bar> \<le> hi / lo"
    using v2 lohi(1) b1 by (rule frac_le)
  then have q2: "\<bar>v / b\<bar> \<le> hi / lo" by (simp only: abs_divide)
  from divide_rel[OF bnz in_range[OF range(1) q1 q2 range(2)]]
  obtain d1 where d1: "\<bar>d1\<bar> \<le> u" and q: "Fin v / Fin b = Fin (v / b * (1 + d1))"
    unfolding u_def by blast
  have e1: "\<bar>(1 + d1) - 1\<bar> \<le> u" using d1 by simp
  have x2: "v / b * (1 + d1) * 100 = v / b * 100 * (1 + d1)" by simp
  have z: "0 \<le> 100 * (lo / hi)" using lohi by simp
  from scaled_range[OF times100_range[OF q1 q2] half_two[OF e1 small(1)] z]
  have r2: "100 * (lo / hi) / 2 \<le> \<bar>v / b * 100 * (1 + d1)\<bar>"
    "\<bar>v / b * 100 * (1 + d1)\<bar> \<le> 2 * (100 * (hi / lo))" by blast+
  from times_rel[OF in_range[OF range(3) r2 range(4), folded x2]]
  obtain d2 where d2: "\<bar>d2\<bar> \<le> u"
    and n: "Fin (v / b * (1 + d1)) * Fin 100 = Fin (v / b * (1 + d1) * 100 * (1 + d2))"
    unfolding u_def by blast
  define n' where "n' = v / b * (1 + d1) * 100 * (1 + d2)"
  have e2: "\<bar>(1 + d1) * (1 + d2) - 1\<bar> \<le> \<alpha>2"
    unfolding \<alpha>2_def using e1 d2 by (rule error_step)
  have x3: "n' * b = v * 100 * ((1 + d1) * (1 + d2))"
    using bnz by (simp add: n'_def)
  have z: "0 \<le> 100 * lo" using lohi by simp
  from scaled_range[OF times100_range[OF v1 v2] half_two[OF e2 small(2)] z]
  have r3: "100 * lo / 2 \<le> \<bar>n' * b\<bar>" "\<bar>n' * b\<bar> \<le> 2 * (100 * hi)"
    unfolding x3 by blast+
  from times_rel[OF in_range[OF range(5) r3 range(6)]]
  obtain d3 where d3: "\<bar>d3\<bar> \<le> u"
    and p: "Fin n' * Fin b = Fin (n' * b * (1 + d3))"
    unfolding u_def by blast
  have e3: "\<bar>(1 + d1) * (1 + d2) * (1 + d3) - 1\<bar> \<le> \<alpha>3"
    unfolding \<alpha>3_def using e2 d3 by (rule error_step)
  have x4: "n' * b * (1 + d3) / 100 = v * ((1 + d1) * (1 + d2) * (1 + d3))"
    by (simp add: x3)
  from scaled_range[OF v1 v2 half_two[OF e3 small(3)] lohi(2)]
  have r4: "lo / 2 \<le> \<bar>n' * b * (1 + d3) / 100\<bar>" "\<bar>n' * b * (1 + d3) / 100\<bar> \<le> 2 * hi"
    unfolding x4 by blast+
  have h: "(100::rat) \<noteq> 0" by simp
  from divide_rel[OF h in_range[OF range(7) r4 range(8)]]
  obtain d4 where d4: "\<bar>d4\<bar> \<le> u"
    and r: "Fin (n' * b * (1 + d3)) / Fin 100 = Fin (n' * b * (1 + d3) / 100 * (1 + d4))"
    unfolding u_def by blast
  have e4: "\<bar>(1 + d1) * (1 + d2) * (1 + d3) * (1 + d4) - 1\<bar> \<le> \<alpha>4"
    unfolding \<alpha>4_def using e3 d4 by (rule error_step)
  define r' where "r' = n' * b * (1 + d3) / 100 * (1 + d4)"
  have "r' = v * ((1 + d1) * (1 + d2) * (1 + d3)) * (1 + d4)"
    by (simp only: r'_def x4)
  then have r'v: "r' - v = v * ((1 + d1) * (1 + d2) * (1 + d3) * (1 + d4) - 1)"
    by (simp add: algebra_simps)
  have "\<bar>r' - v\<bar> = \<bar>v\<bar> * \<bar>(1 + d1) * (1 + d2) * (1 + d3) * (1 + d4) - 1\<bar>"
    by (simp only: r'v abs_mult)
  also have "\<dots> \<le> \<bar>v\<bar> * (1 / 2 ^ 50)"
    using e4 small(4) by (intro mult_left_mono) simp_all
  finally have err: "\<bar>r' - v\<bar> \<le> \<bar>v\<bar> / 2 ^ 50" by simp
  have "Fin v / Fin b * Fin 100 = Fin n'"
    by (simp only: q n n'_def)
  moreover have "Fin n' * Fin b / Fin 100 = Fin r'"
    by (simp only: p r r'_def)
  ultimately show ?thesis using err by blast
qed

lemma round_trip_zero:
  assumes "b \<noteq> 0"
  shows "Fin 0 / Fin b * Fin 100 = Fin 0 \<and> Fin 0 * Fin b / Fin 100 = Fin 0"
  using assms by simp

lemma huge_price_not_1: "huge_price \<noteq> 1"
  by (simp add: huge_price_def)

lemma round_double_huge_price: "round_double huge_price = Fin huge_price"
  unfolding huge_price_def
  by (rule round_double_exact[where m = 1 and e = 1020]) simp_all

lemma round_double_huge_price_100: "round_double (huge_price * 100) = PInf"
  unfolding huge_price_def
  by (rule round_double_overflow) simp

text \<open>
  C8, as stated: for every series with a base other than zero, the normalized value times
  the base divided by 100 is the raw value again, within floating-point tolerance. With a
  base of 1 and a raw value of \<open>2 ^ 1020\<close> the product with 100 overflows: the normalized
  value is Infinity, and so is what the round trip gives back.
\<close>

theorem round_trip_overflow_counterexample:
  "normalizeData sn_example overflow_data one_vas =
     Inr [[(''date'', JStr ''Jan 2024''), (''A'', JNum (Fin 100)), (''TOTAL'', JNum (Fin 0))],
          [(''date'', JStr ''Feb 2024''), (''A'', JNum PInf), (''TOTAL'', JNum (Fin 0))]] \<and>
   PInf * Fin 1 / Fin 100 = PInf \<and> PInf \<noteq> Fin huge_price"
  by (simp add: eval_normalize eval_round overflow_data_def one_vas_def
      huge_price_not_1 round_double_huge_price round_double_huge_price_100)

text \<open>
  C8, amended: for a series whose base is a finite number of magnitude between
  \<open>2 powi (- 500)\<close> and \<open>2 ^ 500\<close>, at every index where the raw value is zero or a finite
  number of magnitude in the same range, the normalized value is finite, and that value
  times the base divided by 100, computed in binary64 like the normalized value itself,
  differs from the raw value by at most the fraction \<open>1 / 2 ^ 50\<close> of it (four roundings).
  The key TOTAL is excluded: that property of an output point holds the weighted total.
\<close>

theorem normalized_round_trip:
  assumes "data \<noteq> []" and "baseValues sn (hd data) data key = Some (Fin b)"
    and "1 / 2 ^ 500 \<le> \<bar>b\<bar>" and "\<bar>b\<bar> \<le> 2 ^ 500"
    and "key \<noteq> ''TOTAL''" and "i < length data" and "get (data ! i) key = JNum (Fin v)"
    and "v = 0 \<or> 1 / 2 ^ 500 \<le> \<bar>v\<bar>" and "\<bar>v\<bar> \<le> 2 ^ 500"
  shows "\<exists>out n r. normalizeData sn data portfolio = Inr out \<and>
           get (out ! i) key = JNum (Fin n) \<and>
           Fin n * Fin b / Fin 100 = Fin r \<and> \<bar>r - v\<bar> \<le> \<bar>v\<bar> / 2 ^ 50"
proof -
  have nd: "key \<noteq> ''date''"
    using assms(2) by (auto simp: baseValues_apply split: if_splits)
  have valid: "is_valid (get (data ! i) key)"
    by (simp add: assms(7) is_valid_def)
  have base: "base_of (baseValues sn (hd data) data) key = Fin b"
    by (simp add: base_of_def assms(2))
  have "(0::rat) < 1 / 2 ^ 500" by simp
  then have "0 < \<bar>b\<bar>" using assms(3) by (rule order_less_le_trans)
  then have bnz: "b \<noteq> 0" by simp
  from normalized_value_at[OF assms(1,6) nd assms(5) valid, of sn portfolio]
  obtain out where out: "normalizeData sn data portfolio = Inr out"
    and val: "get (out ! i) key = JNum (Fin v / Fin b * Fin 100)"
    by (auto simp: base assms(7))
  have "\<exists>n r. Fin v / Fin b * Fin 100 = Fin n \<and> Fin n * Fin b / Fin 100 = Fin r \<and>
          \<bar>r - v\<bar> \<le> \<bar>v\<bar> / 2 ^ 50"
  proof (cases "v = 0")
    case True
    with round_trip_zero[OF bnz] show ?thesis by auto
  next
    case False
    with assms(8) have "1 / 2 ^ 500 \<le> \<bar>v\<bar>" by simp
    with assms(3,4) show ?thesis using assms(9) by (rule round_trip_error)
  qed
  then obtain n r where "Fin v / Fin b * Fin 100 = Fin n" "Fin n * Fin b / Fin 100 = Fin r"
    "\<bar>r - v\<bar> \<le> \<bar>v\<bar> / 2 ^ 50" by blast
  with out val show ?thesis by auto
qed

theorem normalized_round_trip_witness:
  "\<exists>out n r. normalizeData sn_example late_start a_and_b = Inr out \<and>
     get (out ! 2) ''A'' = JNum (Fin n) \<and>
     Fin n * Fin 10 / Fin 100 = Fin r \<and> \<bar>r - 20\<bar> \<le> \<bar>20\<bar> / 2 ^ 50"
proof -
  have a: "late_start \<noteq> []"
    and b: "baseValues sn_example (hd late_start) late_start ''A'' = Some (Fin 10)"
    and d: "''A'' \<noteq> ''TOTAL''"
    and e: "2 < length late_start" and f: "get (late_start ! 2) ''A'' = JNum (Fin 20)"
    by (simp_all add: late_start_def baseValues_def Object_keys_def get_def is_valid_def)
  have c: "1 / 2 ^ 500 \<le> \<bar>10::rat\<bar>" "\<bar>10::rat\<bar> \<le> 2 ^ 500"
    and g: "(20::rat) = 0 \<or> 1 / 2 ^ 500 \<le> \<bar>20::rat\<bar>" "\<bar>20::rat\<bar> \<le> 2 ^ 500"
    by simp_all
  from normalized_round_trip [OF a b c d e f g, of a_and_b]
  show ?thesis .
qed

section \<open>A series without any value\<close>












section \<open>A portfolio without invested shares\<close>

text \<open>
  C1: with zero total non-CASH shares the claim wants TOTAL to be 0 at every timestamp.
  The code divides each holding's shares by the total without a test for zero: for the
  default portfolio and a single priced point, the weight of VAS is \<open>0 / 0\<close> and TOTAL
  is NaN.
\<close>

theorem zero_shares_total_is_NaN:
  "totalInvestment default_portfolio = Fin 0 \<and>
   normalizeData sn_example [[(''date'', JStr ''Jan 2024''), (''VAS'', JNum (Fin 10))]] default_portfolio =
     Inr [[(''date'', JStr ''Jan 2024''), (''VAS'', JNum (Fin 100)), (''TOTAL'', JNum NaN)]]"
  by (simp add: eval_normalize eval_round default_portfolio_def)

section \<open>Updating a holding\<close>

text \<open>
  C6: \<^verbatim>\<open>handleSharesChange\<close> sets \<^verbatim>\<open>lastUpdated\<close> to the current time, keeps the number
  and order of the holdings, replaces the shares of each holding whose symbol matches by
  \<^verbatim>\<open>Math.max(0, shares)\<close> and leaves every other holding as it was; for a finite number
  \<open>n\<close> of shares the stored value is \<open>max 0 n\<close>.
\<close>

theorem handleSharesChange_replaces_matching:
  "lastUpdated (handleSharesChange now instrument newShares prev) = now \<and>
   length (holdings (handleSharesChange now instrument newShares prev)) = length (holdings prev) \<and>
   (\<forall>i < length (holdings prev).
      holdings (handleSharesChange now instrument newShares prev) ! i =
        (if symbol (holdings prev ! i) = instrument
         then (holdings prev ! i)\<lparr>shares := Math_max0 newShares\<rparr>
         else holdings prev ! i)) \<and>
   Math_max0 (Fin n) = Fin (max 0 n)"
  by (simp add: handleSharesChange_def)

theorem handleSharesChange_replaces_matching_witness:
  "lastUpdated (handleSharesChange ''2024-02-01T00:00:00.000Z'' ''VAS'' (Fin (-5)) one_vas)
     = ''2024-02-01T00:00:00.000Z'' \<and>
   holdings (handleSharesChange ''2024-02-01T00:00:00.000Z'' ''VAS'' (Fin (-5)) one_vas) ! 0
     = mk_holding ''VAS'' 0 \<and>
   holdings (handleSharesChange ''2024-02-01T00:00:00.000Z'' ''VAS'' (Fin (-5)) one_vas) ! 1
     = mk_holding ''CASH'' 0"
proof -
  have len: "length (holdings one_vas) = 2"
    and h0: "holdings one_vas ! 0 = mk_holding ''VAS'' 1"
    and h1: "holdings one_vas ! Suc 0 = mk_holding ''CASH'' 0"
    by (simp_all add: one_vas_def)
  have s: "symbol (mk_holding ''VAS'' 1) = ''VAS''" "symbol (mk_holding ''CASH'' 0) \<noteq> ''VAS''"
    "(mk_holding ''VAS'' 1)\<lparr>shares := Fin 0\<rparr> = mk_holding ''VAS'' 0"
    by (simp_all add: mk_holding_def)
  from handleSharesChange_replaces_matching
         [of "''2024-02-01T00:00:00.000Z''" "''VAS''" "Fin (-5)" one_vas "-5"]
  show ?thesis
    by (simp add: len h0 h1 s)
qed

text \<open>
  C5, as stated: an update whose instrument matches no holding fails with an
  UnknownInstrument error. The function has no failing path: the call below returns the
  portfolio with the same holdings and a new time stamp.
\<close>

theorem unknown_instrument_counterexample:
  "''XYZ'' \<notin> set (map symbol (holdings one_vas)) \<and>
   handleSharesChange ''2024-02-01T00:00:00.000Z'' ''XYZ'' (Fin 5) one_vas =
     \<lparr> holdings = [mk_holding ''VAS'' 1, mk_holding ''CASH'' 0],
       lastUpdated = ''2024-02-01T00:00:00.000Z'' \<rparr>"
  by (simp add: handleSharesChange_def one_vas_def mk_holding_def)

text \<open>
  C5, amended: an update whose instrument matches no holding raises no error; it
  returns the portfolio with every holding unchanged and \<^verbatim>\<open>lastUpdated\<close> set to the
  current time.
\<close>

theorem handleSharesChange_unknown_instrument:
  assumes "\<forall>h \<in> set (holdings prev). symbol h \<noteq> instrument"
  shows "handleSharesChange now instrument newShares prev = prev\<lparr>lastUpdated := now\<rparr>"
proof -
  have "map (\<lambda>holding. if symbol holding = instrument
                        then holding\<lparr>shares := Math_max0 newShares\<rparr> else holding)
          (holdings prev) = holdings prev"
    using assms by (simp add: map_idI)
  then show ?thesis
    by (simp add: handleSharesChange_def)
qed

theorem handleSharesChange_unknown_instrument_witness:
  "handleSharesChange ''2024-02-01T00:00:00.000Z'' ''BHP'' (Fin 7) one_vas =
     one_vas\<lparr>lastUpdated := ''2024-02-01T00:00:00.000Z''\<rparr>"
proof -
  have "\<forall>h \<in> set (holdings one_vas). symbol h \<noteq> ''BHP''"
    by (simp add: one_vas_def mk_holding_def)
  then show ?thesis
    by (rule handleSharesChange_unknown_instrument)
qed

section \<open>Holding valuations\<close>

lemma times_one: "(x::number) * Fin 1 = x"
  by (cases x) simp_all

lemma zero_div_truthy: "truthy t \<Longrightarrow> Fin 0 / t * Fin 100 = Fin 0"
  by (cases t) simp_all

lemma times_zero_not_greater: "\<not> greater_zero (x * Fin 0)"
  by (cases x) simp_all

lemma pieData_priced:
  "pieData cp (p\<lparr>holdings := filter (priced cp) (holdings p)\<rparr>) = pieData cp p"
proof -
  have "filter (\<lambda>item. greater_zero (snd item)) (map f (filter (priced cp) hs)) =
        filter (\<lambda>item. greater_zero (snd item)) (map f hs)"
    if "\<And>h. \<not> priced cp h \<Longrightarrow> \<not> greater_zero (snd (f h))" for f :: "PortfolioHolding \<Rightarrow> string \<times> number" and hs
    using that by (induction hs) simp_all
  then show ?thesis
    by (simp add: pieData_def priced_def price_or_zero_def times_zero_not_greater)
qed

lemma foldl_values:
  assumes "\<forall>h \<in> set hs. \<exists>v\<ge>0. row_value cp h = Fin v" and "acc + Fin 0 = acc"
  shows "foldl (\<lambda>sum item. sum + snd item) acc
           (filter (\<lambda>item. greater_zero (snd item))
              (map (\<lambda>holding.
                 (symbol holding,
                  if symbol holding = ''CASH'' then shares holding
                  else shares holding * price_or_zero cp (symbol holding @ ''.AX''))) hs)) =
         foldl (\<lambda>sum h. sum + row_value cp h) acc hs"
  using assms
proof (induction hs arbitrary: acc)
  case Nil
  then show ?case by simp
next
  case (Cons h hs)
  then obtain v where v: "0 \<le> v" "row_value cp h = Fin v" by auto
  have item: "(if symbol h = ''CASH'' then shares h
               else shares h * price_or_zero cp (symbol h @ ''.AX'')) = Fin v"
    using v(2) by (simp add: row_value_def row_currentPrice_def times_one split: if_splits)
  have rest: "\<forall>h \<in> set hs. \<exists>v\<ge>0. row_value cp h = Fin v"
    using Cons.prems(1) by simp
  show ?case
  proof (cases "v = 0")
    case True
    then show ?thesis
      using Cons.IH[OF rest Cons.prems(2)] Cons.prems(2) by (simp add: item v(2))
  next
    case False
    with v(1) have "0 < v" by simp
    moreover have "(acc + Fin v) + Fin 0 = acc + Fin v" by (rule plus_zero_idem)
    ultimately show ?thesis
      using Cons.IH[OF rest, of "acc + Fin v"] by (simp add: item v(2))
  qed
qed

text \<open>
  C7, as stated: the weight of a holding is its value divided by the total value. The
  table computes a percentage: a value of 30 in a total of 40 has weight 75, not 3/4.
\<close>

theorem weight_is_percentage_counterexample:
  "totalValue vas_price three_holdings = Fin 40 \<and>
   row_value vas_price (mk_holding ''VAS'' 1) = Fin 30 \<and>
   row_weight vas_price three_holdings (mk_holding ''VAS'' 1) = Fin 75 \<and>
   row_value vas_price (mk_holding ''VAS'' 1) / totalValue vas_price three_holdings = Fin (3 / 4)"
  by (simp add: eval_valuation eval_round three_holdings_def vas_price_def)

text \<open>
  C7, amended: the price of a holding is 1 for CASH, otherwise the entry of
  \<^verbatim>\<open>currentPrices\<close> under the symbol with the suffix \<^verbatim>\<open>.AX\<close>, or 0 when that entry is
  missing (or is 0 or NaN); the value is shares times price; a holding with a missing
  price and a finite number of shares has value 0 and weight 0; the total value is not
  changed by leaving the holdings without a price out, and it is the sum of all values
  when every value is finite and not negative; the weight is value divided by total value
  times 100 when the total value is neither 0 nor NaN, and 0 otherwise.
\<close>

theorem holding_valuation:
  "row_currentPrice cp h =
     (if symbol h = ''CASH'' then Fin 1
      else case cp (symbol h @ ''.AX'') of
             None \<Rightarrow> Fin 0
           | Some v \<Rightarrow> if truthy v then v else Fin 0) \<and>
   row_value cp h = shares h * row_currentPrice cp h \<and>
   (symbol h \<noteq> ''CASH'' \<and> cp (symbol h @ ''.AX'') = None \<and> shares h = Fin n \<longrightarrow>
      row_value cp h = Fin 0 \<and> row_weight cp p h = Fin 0) \<and>
   totalValue cp (p\<lparr>holdings := filter (priced cp) (holdings p)\<rparr>) = totalValue cp p \<and>
   ((\<forall>g \<in> set (holdings p). \<exists>v\<ge>0. row_value cp g = Fin v) \<longrightarrow>
      totalValue cp p = foldl (\<lambda>sum h. sum + row_value cp h) (Fin 0) (holdings p)) \<and>
   row_weight cp p h =
     (if truthy (totalValue cp p) then row_value cp h / totalValue cp p * Fin 100 else Fin 0)"
proof (intro conjI impI)
  show "row_currentPrice cp h =
     (if symbol h = ''CASH'' then Fin 1
      else case cp (symbol h @ ''.AX'') of
             None \<Rightarrow> Fin 0
           | Some v \<Rightarrow> if truthy v then v else Fin 0)"
    by (simp add: row_currentPrice_def price_or_zero_def)
next
  show "row_value cp h = shares h * row_currentPrice cp h"
    by (simp add: row_value_def)
next
  assume a: "symbol h \<noteq> ''CASH'' \<and> cp (symbol h @ ''.AX'') = None \<and> shares h = Fin n"
  then show v: "row_value cp h = Fin 0"
    by (simp add: row_value_def row_currentPrice_def price_or_zero_def)
  then show "row_weight cp p h = Fin 0"
    by (simp add: row_weight_def zero_div_truthy)
next
  show "totalValue cp (p\<lparr>holdings := filter (priced cp) (holdings p)\<rparr>) = totalValue cp p"
    by (simp add: totalValue_def pieData_priced)
next
  assume "\<forall>g \<in> set (holdings p). \<exists>v\<ge>0. row_value cp g = Fin v"
  then show "totalValue cp p = foldl (\<lambda>sum h. sum + row_value cp h) (Fin 0) (holdings p)"
    unfolding totalValue_def pieData_def by (rule foldl_values) simp
next
  show "row_weight cp p h =
     (if truthy (totalValue cp p) then row_value cp h / totalValue cp p * Fin 100 else Fin 0)"
    by (simp add: row_weight_def)
qed

theorem holding_valuation_witness:
  "row_currentPrice vas_price (mk_holding ''VGS'' 2) = Fin 0 \<and>
   row_value vas_price (mk_holding ''VGS'' 2) = Fin 0 \<and>
   row_weight vas_price three_holdings (mk_holding ''VGS'' 2) = Fin 0 \<and>
   totalValue vas_price three_holdings = Fin 40"
proof -
  have a: "symbol (mk_holding ''VGS'' 2) \<noteq> ''CASH'' \<and>
           vas_price (symbol (mk_holding ''VGS'' 2) @ ''.AX'') = None \<and>
           shares (mk_holding ''VGS'' 2) = Fin 2"
    by (simp add: mk_holding_def vas_price_def)
  have b: "\<forall>g \<in> set (holdings three_holdings). \<exists>v\<ge>0. row_value vas_price g = Fin v"
    by (simp add: three_holdings_def eval_valuation eval_round vas_price_def)
  have c: "foldl (\<lambda>sum h. sum + row_value vas_price h) (Fin 0) (holdings three_holdings) = Fin 40"
    by (simp add: three_holdings_def eval_valuation eval_round vas_price_def)
  from holding_valuation [of vas_price "mk_holding ''VGS'' 2" 2 three_holdings] a b c
  show ?thesis
    by simp
qed

end
